theory Spec2Isabelle
  imports Main
begin

section \<open>Text as Python sees it\<close>

text \<open>
  The script \<^verbatim>\<open>dev/integrate_html_files.py\<close> works on Python strings. They are
  embedded as HOL strings: a character is a code point below 256, which covers every
  character the script's patterns and templates mention. On that range Python's
  \<^verbatim>\<open>str.lower\<close> maps the 26 ASCII capitals and the 30 Latin-1 capitals to their
  small letters, and \<^verbatim>\<open>str.strip\<close> removes the characters of \<open>whitespace\<close>.
\<close>

definition upper_chars :: "char list" where
  "upper_chars = ''ABCDEFGHIJKLMNOPQRSTUVWXYZ'' @
     [CHR 0xC0, CHR 0xC1, CHR 0xC2, CHR 0xC3, CHR 0xC4, CHR 0xC5, CHR 0xC6, CHR 0xC7,
      CHR 0xC8, CHR 0xC9, CHR 0xCA, CHR 0xCB, CHR 0xCC, CHR 0xCD, CHR 0xCE, CHR 0xCF,
      CHR 0xD0, CHR 0xD1, CHR 0xD2, CHR 0xD3, CHR 0xD4, CHR 0xD5, CHR 0xD6,
      CHR 0xD8, CHR 0xD9, CHR 0xDA, CHR 0xDB, CHR 0xDC, CHR 0xDD, CHR 0xDE]"

definition lower_chars :: "char list" where
  "lower_chars = ''abcdefghijklmnopqrstuvwxyz'' @
     [CHR 0xE0, CHR 0xE1, CHR 0xE2, CHR 0xE3, CHR 0xE4, CHR 0xE5, CHR 0xE6, CHR 0xE7,
      CHR 0xE8, CHR 0xE9, CHR 0xEA, CHR 0xEB, CHR 0xEC, CHR 0xED, CHR 0xEE, CHR 0xEF,
      CHR 0xF0, CHR 0xF1, CHR 0xF2, CHR 0xF3, CHR 0xF4, CHR 0xF5, CHR 0xF6,
      CHR 0xF8, CHR 0xF9, CHR 0xFA, CHR 0xFB, CHR 0xFC, CHR 0xFD, CHR 0xFE]"

definition lower_chr :: "char \<Rightarrow> char" where
  "lower_chr c = (case map_of (zip upper_chars lower_chars) c of Some d \<Rightarrow> d | None \<Rightarrow> c)"

definition lower :: "string \<Rightarrow> string" where
  "lower s = map lower_chr s"

definition whitespace :: "char list" where
  "whitespace = [CHR 0x09, CHR 0x0A, CHR 0x0B, CHR 0x0C, CHR 0x0D, CHR 0x1C, CHR 0x1D,
                 CHR 0x1E, CHR 0x1F, CHR 0x20, CHR 0x85, CHR 0xA0]"

definition is_space :: "char \<Rightarrow> bool" where
  "is_space c = (c \<in> set whitespace)"

definition strip :: "string \<Rightarrow> string" where
  "strip s = rev (dropWhile is_space (rev (dropWhile is_space s)))"

fun join :: "string \<Rightarrow> string list \<Rightarrow> string" where
  "join sep [] = []"
| "join sep [x] = x"
| "join sep (x # y # ys) = x @ sep @ join sep (y # ys)"

fun starts_with :: "string \<Rightarrow> string \<Rightarrow> bool" where
  "starts_with [] s = True"
| "starts_with (c # cs) [] = False"
| "starts_with (c # cs) (d # ds) = (c = d \<and> starts_with cs ds)"

fun ends_with :: "string \<Rightarrow> string \<Rightarrow> bool" where
  "ends_with suf s = starts_with (rev suf) (rev s)"

text \<open>The offset of the first occurrence of \<open>sub\<close> in \<open>s\<close>.\<close>

fun index_of :: "string \<Rightarrow> string \<Rightarrow> nat option" where
  "index_of sub [] = (if sub = [] then Some 0 else None)"
| "index_of sub (c # cs) =
     (if starts_with sub (c # cs) then Some 0 else map_option Suc (index_of sub cs))"

text \<open>\<^verbatim>\<open>sub in s\<close>\<close>

definition contains :: "string \<Rightarrow> string \<Rightarrow> bool" where
  "contains s sub = (index_of sub s \<noteq> None)"

text \<open>
  \<^verbatim>\<open>s.find(sub, start)\<close>: a negative start counts from the end, a start beyond
  the end finds nothing, and the answer when nothing is found is \<open>-1\<close>.
\<close>

definition py_index :: "nat \<Rightarrow> int \<Rightarrow> nat" where
  "py_index n i = (if i < 0 then nat (max 0 (int n + i)) else min n (nat i))"

definition find_from :: "string \<Rightarrow> string \<Rightarrow> int \<Rightarrow> int" where
  "find_from s sub start =
     (if int (length s) < start then - 1
      else let k = py_index (length s) start in
        (case index_of sub (drop k s) of None \<Rightarrow> - 1 | Some j \<Rightarrow> int (k + j)))"

definition str_find :: "string \<Rightarrow> string \<Rightarrow> int" where
  "str_find s sub = find_from s sub 0"

text \<open>\<^verbatim>\<open>s[a:b]\<close> and \<^verbatim>\<open>s[a:]\<close>\<close>

definition slice :: "string \<Rightarrow> int \<Rightarrow> int \<Rightarrow> string" where
  "slice s a b =
     (let i = py_index (length s) a; j = py_index (length s) b in take (j - i) (drop i s))"

definition slice_from :: "string \<Rightarrow> int \<Rightarrow> string" where
  "slice_from s a = drop (py_index (length s) a) s"

section \<open>Regular expressions\<close>

text \<open>
  The patterns the script hands to \<^verbatim>\<open>re\<close> are kept as syntax trees and run by a
  backtracking matcher. \<open>rmatch\<close> returns every way a pattern can match at the start of
  the text, in the order in which a backtracking engine tries them: a greedy repetition
  tries one more round before it tries to stop, a lazy one the other way round, an
  alternation its left branch first. The first entry of the list is the match Python
  reports. A state of the matcher is the text still unread together with the text of
  group 1 (none of the patterns has a second group).
\<close>

datatype flag = IGNORECASE | DOTALL

datatype regex =
    Lit char
  | Dot
  | Cls "char list"
  | NCls "char list"
  | Eps
  | Seq regex regex
  | Alt regex regex
  | Star regex
  | LazyStar regex
  | Opt regex
  | Group regex

type_synonym mstate = "string \<times> string option"

definition chr_eq :: "flag list \<Rightarrow> char \<Rightarrow> char \<Rightarrow> bool" where
  "chr_eq fl c d = (if IGNORECASE \<in> set fl then lower_chr c = lower_chr d else c = d)"

definition in_cls :: "flag list \<Rightarrow> char list \<Rightarrow> char \<Rightarrow> bool" where
  "in_cls fl cs d = list_ex (\<lambda>c. chr_eq fl c d) cs"

function rmatch :: "flag list \<Rightarrow> regex \<Rightarrow> mstate \<Rightarrow> mstate list" where
  "rmatch fl (Lit c) st =
     (case fst st of [] \<Rightarrow> [] | d # t \<Rightarrow> if chr_eq fl c d then [(t, snd st)] else [])"
| "rmatch fl Dot st =
     (case fst st of [] \<Rightarrow> []
      | d # t \<Rightarrow> if DOTALL \<in> set fl \<or> d \<noteq> CHR 0x0A then [(t, snd st)] else [])"
| "rmatch fl (Cls cs) st =
     (case fst st of [] \<Rightarrow> [] | d # t \<Rightarrow> if in_cls fl cs d then [(t, snd st)] else [])"
| "rmatch fl (NCls cs) st =
     (case fst st of [] \<Rightarrow> [] | d # t \<Rightarrow> if in_cls fl cs d then [] else [(t, snd st)])"
| "rmatch fl Eps st = [st]"
| "rmatch fl (Seq a b) st = concat (map (rmatch fl b) (rmatch fl a st))"
| "rmatch fl (Alt a b) st = rmatch fl a st @ rmatch fl b st"
| "rmatch fl (Star r) st =
     concat (map (\<lambda>st'. if length (fst st') < length (fst st)
                          then rmatch fl (Star r) st' else [])
                 (rmatch fl r st)) @ [st]"
| "rmatch fl (LazyStar r) st =
     st # concat (map (\<lambda>st'. if length (fst st') < length (fst st)
                               then rmatch fl (LazyStar r) st' else [])
                      (rmatch fl r st))"
| "rmatch fl (Opt r) st = rmatch fl r st @ [st]"
| "rmatch fl (Group r) st =
     map (\<lambda>st'. (fst st', Some (take (length (fst st) - length (fst st')) (fst st))))
         (rmatch fl r st)"
  by pat_completeness auto
termination
  by (relation "(\<lambda>(fl, r, st). size r) <*mlex*> measure (\<lambda>(fl, r, st). length (fst st))")
     (auto simp: wf_mlex mlex_less mlex_leq)

text \<open>A literal word, a sequence of patterns, and \<^verbatim>\<open>r+\<close>.\<close>

fun lits :: "string \<Rightarrow> regex" where
  "lits [] = Eps"
| "lits (c # cs) = Seq (Lit c) (lits cs)"

definition seqs :: "regex list \<Rightarrow> regex" where
  "seqs rs = foldr Seq rs Eps"

definition Plus1 :: "regex \<Rightarrow> regex" where
  "Plus1 r = Seq r (Star r)"

fun ngroups :: "regex \<Rightarrow> nat" where
  "ngroups (Seq a b) = ngroups a + ngroups b"
| "ngroups (Alt a b) = ngroups a + ngroups b"
| "ngroups (Star r) = ngroups r"
| "ngroups (LazyStar r) = ngroups r"
| "ngroups (Opt r) = ngroups r"
| "ngroups (Group r) = Suc (ngroups r)"
| "ngroups r = 0"

text \<open>
  A matcher tells, for a text, whether there is a match at its very start, and then the
  matched text and group 1. \<open>match_at\<close> is the matcher of a pattern.
\<close>

type_synonym matcher = "string \<Rightarrow> (string \<times> string option) option"

definition match_at :: "flag list \<Rightarrow> regex \<Rightarrow> matcher" where
  "match_at fl r s =
     (case rmatch fl r (s, None) of
        [] \<Rightarrow> None
      | (s', g) # _ \<Rightarrow> Some (take (length s - length s') s, g))"

text \<open>
  Scanning from left to right. \<open>search_by\<close> stops at the first position with a match;
  \<open>findall_by\<close> and \<open>sub_by\<close> go on behind each match, so that matches do not overlap.
  Behind an empty match the scan moves on by one character.
\<close>

fun search_by :: "matcher \<Rightarrow> string \<Rightarrow> (string \<times> string option) option" where
  "search_by m [] = m []"
| "search_by m (c # cs) =
     (case m (c # cs) of Some r \<Rightarrow> Some r | None \<Rightarrow> search_by m cs)"

function findall_by :: "matcher \<Rightarrow> string \<Rightarrow> (string \<times> string option) list" where
  "findall_by m [] = (case m [] of Some r \<Rightarrow> [r] | None \<Rightarrow> [])"
| "findall_by m (c # cs) =
     (case m (c # cs) of
        Some (w, g) \<Rightarrow> (w, g) # findall_by m (drop (max 1 (length w)) (c # cs))
      | None \<Rightarrow> findall_by m cs)"
  by pat_completeness auto
termination
  by (relation "measure (\<lambda>(m, s). length s)") auto

function sub_by :: "matcher \<Rightarrow> (string option \<Rightarrow> string) \<Rightarrow> string \<Rightarrow> string" where
  "sub_by m rep [] = (case m [] of Some (w, g) \<Rightarrow> rep g | None \<Rightarrow> [])"
| "sub_by m rep (c # cs) =
     (case m (c # cs) of
        Some (w, g) \<Rightarrow>
          rep g @ (if w = [] then c # sub_by m rep cs
                   else sub_by m rep (drop (length w) (c # cs)))
      | None \<Rightarrow> c # sub_by m rep cs)"
  by pat_completeness auto
termination
  by (relation "measure (\<lambda>(m, rep, s). length s)") auto

text \<open>
  \<^verbatim>\<open>re.search\<close>, \<^verbatim>\<open>re.findall\<close> (the list of group 1 when the pattern has a
  group, of whole matches otherwise) and \<^verbatim>\<open>re.sub\<close>. A replacement is a list of
  literal pieces and references to group 1; a group that took no part counts as empty.
\<close>

definition re_search :: "regex \<Rightarrow> string \<Rightarrow> flag list \<Rightarrow> (string \<times> string option) option" where
  "re_search r s fl = search_by (match_at fl r) s"

definition group_text :: "string option \<Rightarrow> string" where
  "group_text g = (case g of Some x \<Rightarrow> x | None \<Rightarrow> [])"

definition re_findall :: "regex \<Rightarrow> string \<Rightarrow> flag list \<Rightarrow> string list" where
  "re_findall r s fl =
     map (\<lambda>(w, g). if ngroups r = 0 then w else group_text g) (findall_by (match_at fl r) s)"

datatype repl = Text string | Group1

definition expand :: "repl list \<Rightarrow> string option \<Rightarrow> string" where
  "expand rs g = concat (map (\<lambda>x. case x of Text t \<Rightarrow> t | Group1 \<Rightarrow> group_text g) rs)"

definition re_sub :: "regex \<Rightarrow> repl list \<Rightarrow> string \<Rightarrow> flag list \<Rightarrow> string" where
  "re_sub r rs s fl = sub_by (match_at fl r) (expand rs) s"

section \<open>The content extractor\<close>

text \<open>The patterns of \<^verbatim>\<open>extract_html_content\<close>, in the order of the source.\<close>

definition title_re :: regex where
  \<open>title_re = seqs [lits ''<title'', Star (NCls ''>''), Lit (CHR ''>''),
                     Group (LazyStar Dot), lits ''</title>'']\<close>

definition body_re :: regex where
  \<open>body_re = seqs [lits ''<body'', Star (NCls ''>''), Lit (CHR ''>''),
                    Group (LazyStar Dot), lits ''</body>'']\<close>

definition html_tag_re :: regex where
  \<open>html_tag_re = seqs [Lit (CHR ''<''), Opt (Lit (CHR ''/'')), lits ''html'',
                        Star (NCls ''>''), Lit (CHR ''>'')]\<close>

definition body_tag_re :: regex where
  \<open>body_tag_re = seqs [Lit (CHR ''<''), Opt (Lit (CHR ''/'')), lits ''body'',
                        Star (NCls ''>''), Lit (CHR ''>'')]\<close>

definition style_pattern :: regex where
  \<open>style_pattern = seqs [lits ''<style'', Star (NCls ''>''), Lit (CHR ''>''),
                          Group (LazyStar Dot), lits ''</style>'']\<close>

definition quotes :: "char list" where
  \<open>quotes = [CHR 0x22, CHR 0x27]\<close>

definition script_pattern :: regex where
  \<open>script_pattern =
     seqs [lits ''<script'', Star (NCls ''>''),
           Star (Alt (seqs [lits ''src='', Cls quotes, Star (NCls quotes), Cls quotes])
                     (seqs [lits ''type='', Cls quotes, Star (NCls quotes), Cls quotes])),
           Star (NCls ''>''), Lit (CHR ''>''), LazyStar Dot, lits ''</script>'']\<close>

definition module_script_re :: regex where
  \<open>module_script_re =
     seqs [lits ''<script'', Star (NCls ''>''), lits ''type='', Cls quotes, lits ''module'',
           Cls quotes, Star (NCls ''>''), Lit (CHR ''>''), LazyStar Dot, lits ''</script>'']\<close>

definition style_keywords :: "string list" where
  \<open>style_keywords = [''badge'', ''mermaid'', ''highlight'', ''code'', ''pre'', ''table'', ''img'']\<close>

record html_data =
  title :: string
  content :: string
  styles :: string
  scripts :: string

text \<open>
  The four parts of the result. Calling \<^verbatim>\<open>.strip()\<close> on a group that took no
  part in the match raises; the \<^verbatim>\<open>except\<close> clause turns that into no result,
  which is \<open>None\<close> here.
\<close>

definition extract_title :: "string \<Rightarrow> string option" where
  \<open>extract_title text =
     (case re_search title_re text [IGNORECASE, DOTALL] of
        None \<Rightarrow> Some ''Documentation''
      | Some (w, g) \<Rightarrow> map_option strip g)\<close>

definition extract_body :: "string \<Rightarrow> string option" where
  \<open>extract_body text =
     (case re_search body_re text [DOTALL, IGNORECASE] of
        Some (w, g) \<Rightarrow> map_option strip g
      | None \<Rightarrow>
          (let head_end = str_find text ''</head>'' in
           if head_end \<noteq> - 1 then
             (let body_content = strip (slice_from text (head_end + 7));
                  body_content = re_sub html_tag_re [] body_content [IGNORECASE];
                  body_content = re_sub body_tag_re [] body_content [IGNORECASE]
              in Some body_content)
           else Some text))\<close>

definition useful :: "string \<Rightarrow> bool" where
  \<open>useful style = list_ex (\<lambda>keyword. contains (lower style) keyword) style_keywords\<close>

definition extract_styles :: "string \<Rightarrow> string" where
  \<open>extract_styles text =
     (let style_matches = re_findall style_pattern text [DOTALL, IGNORECASE];
          useful_styles = map strip (filter useful style_matches)
      in if useful_styles \<noteq> [] then join ''\<newline>'' useful_styles else [])\<close>

definition extract_scripts :: "string \<Rightarrow> string" where
  \<open>extract_scripts text =
     (let script_matches = re_findall script_pattern text [DOTALL, IGNORECASE];
          scripts = (if script_matches \<noteq> [] then join ''\<newline>'' script_matches else []);
          import_script_matches = re_findall module_script_re text [DOTALL, IGNORECASE]
      in if import_script_matches \<noteq> []
         then join ''\<newline>'' import_script_matches @ ''\<newline>'' @ scripts
         else scripts)\<close>

definition extract_text :: "string \<Rightarrow> html_data option" where
  \<open>extract_text text =
     (case extract_title text of
        None \<Rightarrow> None
      | Some t \<Rightarrow>
          (case extract_body text of
             None \<Rightarrow> None
           | Some b \<Rightarrow>
               Some \<lparr>title = t, content = b, styles = extract_styles text,
                     scripts = extract_scripts text\<rparr>))\<close>

section \<open>The documentation directory\<close>

text \<open>
  The directory \<^verbatim>\<open>docs\<close> is the list of its entries in the order in which the
  system lists them. An entry is a file with its text and whether it may be written, or
  something that cannot be opened (a directory, a file without permission, bytes that
  are not UTF-8), with the error that opening it raises. What the script prints is kept
  as a list of events, one constructor for each \<^verbatim>\<open>print\<close> of the source.
\<close>

datatype error = FileNotFoundError | OSError string

datatype entry = File string bool | Unreadable string

type_synonym docs = "(string \<times> entry) list"

datatype event =
    DocsNotFound
  | TemplateFailed
  | Warning string error
  | NoStandalone
  | Found nat
  | Listed string
  | Integrating string
  | ErrorReading string error
  | Success string
  | Failure string
  | NotFound string
  | Complete nat

datatype outcome = Returned | Raised error

definition exists :: "docs \<Rightarrow> string \<Rightarrow> bool" where
  \<open>exists d name = (map_of d name \<noteq> None)\<close>

definition read_text :: "docs \<Rightarrow> string \<Rightarrow> error + string" where
  \<open>read_text d name =
     (case map_of d name of
        None \<Rightarrow> Inl FileNotFoundError
      | Some (Unreadable e) \<Rightarrow> Inl (OSError e)
      | Some (File text w) \<Rightarrow> Inr text)\<close>

definition write_text :: "docs \<Rightarrow> string \<Rightarrow> string \<Rightarrow> error + docs" where
  \<open>write_text d name text =
     (case map_of d name of
        None \<Rightarrow> Inr (d @ [(name, File text True)])
      | Some (Unreadable e) \<Rightarrow> Inl (OSError e)
      | Some (File old w) \<Rightarrow>
          if w then Inr (map (\<lambda>(n, e). if n = name then (n, File text True) else (n, e)) d)
          else Inl (OSError ''Permission denied''))\<close>

text \<open>\<^verbatim>\<open>docs_dir.glob('*.html')\<close>\<close>

definition glob_html :: "docs \<Rightarrow> string list" where
  \<open>glob_html d = filter (ends_with ''.html'') (map fst d)\<close>

definition extract_html_content :: "docs \<Rightarrow> string \<Rightarrow> event list \<times> html_data option" where
  \<open>extract_html_content d filepath =
     (case read_text d filepath of
        Inl e \<Rightarrow> ([ErrorReading filepath e], None)
      | Inr text \<Rightarrow>
          (case extract_text text of
             None \<Rightarrow> ([ErrorReading filepath (OSError ''AttributeError'')], None)
           | Some r \<Rightarrow> ([], Some r)))\<close>

section \<open>The template extractor\<close>

record template_data =
  before_content :: string
  sidebar :: string
  footer :: string

definition template_of :: "string \<Rightarrow> template_data option" where
  \<open>template_of text =
     (let content_start = str_find text ''<article id="content">'' in
      if content_start = - 1 then None
      else
        let before = slice text 0 content_start;
            sidebar_start = str_find text ''<nav id="sidebar">'';
            sidebar_end = find_from text ''</nav>'' sidebar_start + 6
        in
        if sidebar_start = - 1 \<or> sidebar_end = - 1 then None
        else
          let side = slice text sidebar_start sidebar_end;
              footer_start = str_find text ''<footer id="footer">'';
              footer_end = str_find text ''</html>''
          in
          if footer_start = - 1 \<or> footer_end = - 1 then None
          else Some \<lparr>before_content = before, sidebar = side,
                      footer = slice text footer_start footer_end\<rparr>)\<close>

text \<open>
  \<^verbatim>\<open>generate_pdoc_template\<close> reads \<^verbatim>\<open>docs/index.html\<close> outside any
  \<^verbatim>\<open>try\<close>: an index that is there and cannot be read raises.
\<close>

definition generate_pdoc_template :: "docs \<Rightarrow> error + template_data option" where
  \<open>generate_pdoc_template d =
     (if \<not> exists d ''index.html'' then Inr None
      else (case read_text d ''index.html'' of
              Inl e \<Rightarrow> Inl e
            | Inr text \<Rightarrow> Inr (template_of text)))\<close>

section \<open>The page composer\<close>

definition href_re :: regex where
  \<open>href_re = seqs [lits ''href="#'', Group (Plus1 (NCls ''"'')), Lit (CHR 0x22)]\<close>

definition href_repl :: "repl list" where
  \<open>href_repl = [Text ''href="index.html#'', Group1, Text ''"'']\<close>

definition rewrite_sidebar :: "string \<Rightarrow> string" where
  \<open>rewrite_sidebar s = re_sub href_re href_repl s []\<close>

text \<open>
  The fixed pieces of the page that \<^verbatim>\<open>create_integrated_page\<close> writes, between the
  places where it inserts the title (twice), the styles, the content, the sidebar, the
  footer and the scripts.
\<close>

definition page_open :: string where
  \<open>page_open =
     ''<!doctype html>\<newline>'' @
     ''<html lang="en">\<newline>'' @
     ''<head>\<newline>'' @
     ''  <meta charset="utf-8">\<newline>'' @
     ''  <meta name="viewport" content="width=device-width, initial-scale=1, minimu'' @
     ''m-scale=1" />\<newline>'' @
     ''  <meta name="generator" content="pdoc 0.11.6" />\<newline>'' @
     ''  <title>''\<close>

definition page_description :: string where
  \<open>page_description =
     ''</title>\<newline>'' @
     ''  <meta name="description" content="''\<close>

definition page_head_styles :: string where
  \<open>page_head_styles =
     ''" />\<newline>'' @
     ''  <link rel="preload stylesheet" as="style" href="https://cdnjs.cloudflare.c'' @
     ''om/ajax/libs/10up-sanitize.css/11.0.1/sanitize.min.css" integrity="sha256-PK'' @
     ''9q560IAAa6WVRRh76LtCaI8pjTJ2z11v0miyNNjrs=" crossorigin>\<newline>'' @
     ''  <link rel="preload stylesheet" as="style" href="https://cdnjs.cloudflare.c'' @
     ''om/ajax/libs/10up-sanitize.css/11.0.1/typography.min.css" integrity="sha256-'' @
     ''7l/o7C8jubJiy74VsKTidCy1yBkRtiUGbVkYBylBqUg=" crossorigin>\<newline>'' @
     ''  <link rel="stylesheet preload" as="style" href="https://cdnjs.cloudflare.c'' @
     ''om/ajax/libs/highlight.js/10.1.1/styles/github.min.css" crossorigin>\<newline>'' @
     ''  \<newline>'' @
     ''  <!-- Pdoc Styles -->\<newline>'' @
     ''  <style>:root{--highlight-color:#fe9}.flex{display:flex !important}body{lin'' @
     ''e-height:1.5em}#content{padding:20px}#sidebar{padding:30px;overflow:hidden}#'' @
     ''sidebar > *:last-child{margin-bottom:2cm}.http-server-breadcrumbs{font-size:'' @
     ''130%;margin:0 0 15px 0}#footer{font-size:.75em;padding:5px 30px;border-top:1'' @
     ''px solid #ddd;text-align:right}#footer p{margin:0 0 0 1em;display:inline-blo'' @
     ''ck}#footer p:last-child{margin-right:30px}h1,h2,h3,h4,h5{font-weight:300}h1{'' @
     ''font-size:2.5em;line-height:1.1em}h2{font-size:1.75em;margin:1em 0 .50em 0}h'' @
     ''3{font-size:1.4em;margin:25px 0 10px 0}h4{margin:0;font-size:105%}h1:target,'' @
     ''h2:target,h3:target,h4:target,h5:target,h6:target{background:var(--highlight'' @
     ''-color);padding:.2em 0}a{color:#058;text-decoration:none;transition:color .3'' @
     ''s ease-in-out}a:hover{color:#e82}.title code{font-weight:bold}h2[id^="header'' @
     ''-"]{margin-top:2em}.ident{color:#900}pre code{background:#f8f8f8;font-size:.'' @
     ''8em;line-height:1.4em}code{background:#f2f2f1;padding:1px 4px;overflow-wrap:'' @
     ''break-word}h1 code{background:transparent}pre{background:#f8f8f8;border:0;bo'' @
     ''rder-top:1px solid #ccc;border-bottom:1px solid #ccc;margin:1em 0;padding:1e'' @
     ''x}#http-server-module-list{display:flex;flex-flow:column}#http-server-module'' @
     ''-list div{display:flex}#http-server-module-list dt{min-width:10%}#http-serve'' @
     ''r-module-list p{margin-top:0}.toc ul,#index{list-style-type:none;margin:0;pa'' @
     ''dding:0}#index code{background:transparent}#index h3{border-bottom:1px solid'' @
     '' #ddd}#index ul{padding:0}#index h4{margin-top:.6em;font-weight:bold}@media '' @
     ''(min-width:200ex){#index .two-column{column-count:2}}@media (min-width:300ex'' @
     ''){#index .two-column{column-count:3}}dl{margin-bottom:2em}dl dl:last-child{m'' @
     ''argin-bottom:4em}dd{margin:0 0 1em 3em}#header-classes + dl > dd{margin-bott'' @
     ''om:3em}dd dd{margin-left:2em}dd p{margin:10px 0}.name{background:#eee;font-w'' @
     ''eight:bold;font-size:.85em;padding:5px 10px;display:inline-block;min-width:4'' @
     ''0%}.name:hover{background:#e0e0e0}dt:target .name{background:var(--highlight'' @
     ''-color)}.name > span:first-child{white-space:nowrap}.name.class > span:nth-c'' @
     ''hild(2){margin-left:.4em}.inherited{color:#999;border-left:5px solid #eee;pa'' @
     ''dding-left:1em}.inheritance em{font-style:normal;font-weight:bold}.desc h2{f'' @
     ''ont-weight:400;font-size:1.25em}.desc h3{font-size:1em}.desc dt code{backgro'' @
     ''und:inherit}.source summary,.git-link-div{color:#666;text-align:right;font-w'' @
     ''eight:400;font-size:.8em;text-transform:uppercase}.source summary > *{white-'' @
     ''space:nowrap;cursor:pointer}.git-link{color:inherit;margin-left:1em}.source '' @
     ''pre{max-height:500px;overflow:auto;margin:0}.source pre code{font-size:12px;'' @
     ''overflow:visible}.hlist{list-style:none}.hlist li{display:inline}.hlist li:a'' @
     ''fter{content:'' @
     [CHR 0x27] @
     '','' @
     [CHR 0x5C] @
     ''2002'' @
     [CHR 0x27] @
     ''}.hlist li:last-child:after{content:none}.hlist .hlist{display:inline;paddin'' @
     ''g-left:1em}img{max-width:100%}td{padding:0 .5em}.admonition{padding:.1em .5e'' @
     ''m;margin-bottom:1em}.admonition-title{font-weight:bold}.admonition.note,.adm'' @
     ''onition.info,.admonition.important{background:#aef}.admonition.todo,.admonit'' @
     ''ion.versionadded,.admonition.tip,.admonition.hint{background:#dfd}.admonitio'' @
     ''n.warning,.admonition.versionchanged,.admonition.deprecated{background:#fd4}'' @
     ''.admonition.error,.admonition.danger,.admonition.caution{background:lightpin'' @
     ''k}</style>\<newline>'' @
     ''  <style media="screen and (min-width: 700px)">@media screen and (min-width:'' @
     ''700px){#sidebar{width:30%;height:100vh;overflow:auto;position:sticky;top:0}#'' @
     ''content{width:70%;padding:3em 4em;border-left:1px solid #ddd}pre code{font-s'' @
     ''ize:1em}.item .name{font-size:1em}main{display:flex;flex-direction:row-rever'' @
     ''se;justify-content:flex-end}.toc ul ul,#index ul{padding-left:1.5em}.toc > u'' @
     ''l > li{margin-top:.5em}}</style>\<newline>'' @
     ''  <style media="print">@media print{#sidebar h1{page-break-before:always}.so'' @
     ''urce{display:none}}@media print{*{background:transparent !important;color:#0'' @
     ''00 !important;box-shadow:none !important;text-shadow:none !important}a[href]'' @
     '':after{content:" (" attr(href) ")";font-size:90%}a[href][title]:after{conten'' @
     ''t:none}abbr[title]:after{content:" (" attr(title) ")"} .ir a:after,a[href^="'' @
     ''javascript:"]:after,a[href^="#"]:after{content:""}pre,blockquote{border:1px '' @
     ''solid #999;page-break-inside:avoid}thead{display:table-header-group}tr,img{p'' @
     ''age-break-inside:avoid}img{max-width:100% !important}@page{margin:0.5cm}p,h2'' @
     '',h3{orphans:3;widows:3}h1,h2,h3,h4,h5,h6{page-break-after:avoid}}</style>\<newline>'' @
     ''\<newline>'' @
     ''  <!-- Additional styles for custom content -->\<newline>'' @
     ''  <style>\<newline>'' @
     ''    .badges img {\<newline>'' @
     ''      margin-right: 0.5rem;\<newline>'' @
     ''      margin-bottom: 0.25rem;\<newline>'' @
     ''    }\<newline>'' @
     ''    .mermaid {\<newline>'' @
     ''      text-align: center;\<newline>'' @
     ''      margin: 1rem 0;\<newline>'' @
     ''    }\<newline>'' @
     ''    #section-intro .badges {\<newline>'' @
     ''      margin-bottom: 1rem;\<newline>'' @
     ''    }\<newline>'' @
     ''    /* Custom styles from original HTML */\<newline>'' @
     ''    ''\<close>

definition page_head_end :: string where
  \<open>page_head_end =
     ''\<newline>'' @
     ''  </style>\<newline>'' @
     ''  <script defer src="https://cdnjs.cloudflare.com/ajax/libs/highlight.js/10.'' @
     ''1.1/highlight.min.js" integrity="sha256-Uv3H6lx7dJmRfRvH8TH6kJD1TSK1aFcwgx+m'' @
     ''dg3epi8=" crossorigin></script>\<newline>'' @
     ''  <script>window.addEventListener('' @
     [CHR 0x27] @
     ''DOMContentLoaded'' @
     [CHR 0x27] @
     '', () => hljs.initHighlighting())</script>\<newline>'' @
     ''  <link rel="shortcut icon" type="image/x-icon" href="adaptyv_logo.png?">\<newline>'' @
     ''</head>\<newline>'' @
     ''<body>\<newline>'' @
     ''<main>\<newline>'' @
     ''<article id="content">\<newline>'' @
     ''<section id="section-intro">\<newline>''\<close>

definition page_after_content :: string where
  \<open>page_after_content =
     ''\<newline>'' @
     ''</section>\<newline>'' @
     ''</article>\<newline>'' @
     ''\<newline>''\<close>

definition page_after_sidebar :: string where
  \<open>page_after_sidebar =
     ''\<newline>'' @
     ''</main>\<newline>'' @
     ''\<newline>''\<close>

definition page_after_footer :: string where
  \<open>page_after_footer =
     ''\<newline>'' @
     ''\<newline>''\<close>

definition page_end :: string where
  \<open>page_end =
     ''\<newline>''\<close>

definition integrated_html :: "html_data \<Rightarrow> template_data \<Rightarrow> string" where
  \<open>integrated_html html_data template_data =
     page_open @ title html_data @
     page_description @ title html_data @
     page_head_styles @ styles html_data @
     page_head_end @ content html_data @
     page_after_content @ rewrite_sidebar (sidebar template_data) @
     page_after_sidebar @ footer template_data @
     page_after_footer @ scripts html_data @
     page_end\<close>

definition create_integrated_page ::
    "html_data \<Rightarrow> template_data \<Rightarrow> string \<Rightarrow> docs \<Rightarrow> error + docs" where
  \<open>create_integrated_page html_data template_data output_path d =
     write_text d output_path (integrated_html html_data template_data)\<close>

section \<open>The directory driver\<close>

definition marker :: string where
  \<open>marker = ''<nav id="sidebar">''\<close>

text \<open>The first loop of \<^verbatim>\<open>main\<close>: the standalone files and the warnings printed.\<close>

fun find_standalone :: "docs \<Rightarrow> string list \<Rightarrow> string list \<times> event list" where
  \<open>find_standalone d [] = ([], [])\<close>
| \<open>find_standalone d (filename # rest) =
     (case find_standalone d rest of
        (standalone, ev) \<Rightarrow>
          if filename \<noteq> ''index.html'' then
            (case read_text d filename of
               Inr text \<Rightarrow>
                 if \<not> contains text marker then (filename # standalone, ev)
                 else (standalone, ev)
             | Inl e \<Rightarrow> (standalone, Warning filename e # ev))
          else (standalone, ev))\<close>

definition and_then :: "event list \<Rightarrow> docs \<times> event list \<times> outcome \<Rightarrow> docs \<times> event list \<times> outcome" where
  \<open>and_then ev r = (case r of (d, ev', oc) \<Rightarrow> (d, ev @ ev', oc))\<close>

text \<open>
  The second loop. A write that fails raises out of \<^verbatim>\<open>main\<close>: the files written
  before it stay written and nothing more is printed.
\<close>

fun process_files :: "template_data \<Rightarrow> string list \<Rightarrow> docs \<Rightarrow> docs \<times> event list \<times> outcome" where
  \<open>process_files template_data [] d = (d, [], Returned)\<close>
| \<open>process_files template_data (filename # rest) d =
     (if exists d filename then
        (case extract_html_content d filename of
           (ev, Some html_data) \<Rightarrow>
             (case create_integrated_page html_data template_data filename d of
                Inl e \<Rightarrow> (d, Integrating filename # ev, Raised e)
              | Inr d' \<Rightarrow>
                  and_then (Integrating filename # ev @ [Success filename])
                    (process_files template_data rest d'))
         | (ev, None) \<Rightarrow>
             and_then (Integrating filename # ev @ [Failure filename])
               (process_files template_data rest d))
      else and_then [NotFound filename] (process_files template_data rest d))\<close>

definition run :: "docs \<Rightarrow> docs \<times> event list \<times> outcome" where
  \<open>run d =
     (case generate_pdoc_template d of
        Inl e \<Rightarrow> (d, [], Raised e)
      | Inr None \<Rightarrow> (d, [TemplateFailed], Returned)
      | Inr (Some template_data) \<Rightarrow>
          (case find_standalone d (glob_html d) of
             (standalone_files, warnings) \<Rightarrow>
               if standalone_files = [] then (d, warnings @ [NoStandalone], Returned)
               else
                 (case process_files template_data standalone_files d of
                    (d', ev, oc) \<Rightarrow>
                      (d',
                       warnings @ Found (length standalone_files) # map Listed standalone_files
                         @ ev @ (if oc = Returned then [Complete (length standalone_files)] else []),
                       oc))))\<close>

text \<open>\<^verbatim>\<open>main\<close>; no directory \<^verbatim>\<open>docs\<close> is \<open>None\<close>.\<close>

definition main :: "docs option \<Rightarrow> docs option \<times> event list \<times> outcome" where
  \<open>main fs =
     (case fs of
        None \<Rightarrow> (None, [DocsNotFound], Returned)
      | Some d \<Rightarrow> (case run d of (d', ev, oc) \<Rightarrow> (Some d', ev, oc)))\<close>


section \<open>The patterns read as plain text operations\<close>

text \<open>
  What the patterns find, said without a regular expression: a word standing at the
  start of a text (letter case ignored under \<open>IGNORECASE\<close>), the text behind the first
  occurrence of a character, and the texts before and behind the first occurrence of a
  word.
\<close>

fun word_at :: "flag list \<Rightarrow> string \<Rightarrow> string \<Rightarrow> bool" where
  "word_at fl [] s = True"
| "word_at fl (c # cs) [] = False"
| "word_at fl (c # cs) (d # ds) = (chr_eq fl c d \<and> word_at fl cs ds)"

definition after_char :: "char \<Rightarrow> string \<Rightarrow> string option" where
  "after_char c s = (case dropWhile (\<lambda>d. d \<noteq> c) s of [] \<Rightarrow> None | _ # r \<Rightarrow> Some r)"

fun cut_word :: "flag list \<Rightarrow> string \<Rightarrow> string \<Rightarrow> (string \<times> string) option" where
  "cut_word fl w [] = (if w = [] then Some ([], []) else None)"
| "cut_word fl w (c # cs) =
     (if word_at fl w (c # cs) then Some ([], drop (length w) (c # cs))
      else map_option (\<lambda>(a, b). (c # a, b)) (cut_word fl w cs))"

text \<open>
  An element \<^verbatim>\<open><name ...>inner</name>\<close> at the start of a text: the opening word, any
  characters up to the first \<^verbatim>\<open>>\<close>, and then the inner text up to the first closing
  tag. The result is the inner text and the text behind the element.
\<close>

definition element_at :: "string \<Rightarrow> string \<Rightarrow> (string \<times> string) option" where
  \<open>element_at name s =
     (if word_at [IGNORECASE] (''<'' @ name) s then
        (case after_char (CHR ''>'') (drop (Suc (length name)) s) of
           None \<Rightarrow> None
         | Some t \<Rightarrow> cut_word [IGNORECASE] (''</'' @ name @ ''>'') t)
      else None)\<close>

definition consumed :: "string \<Rightarrow> string \<Rightarrow> string" where
  "consumed s rest = take (length s - length rest) s"

definition element_inner :: "string \<Rightarrow> matcher" where
  "element_inner name s =
     map_option (\<lambda>(inner, rest). (consumed s rest, Some inner)) (element_at name s)"

definition element_whole :: "string \<Rightarrow> matcher" where
  "element_whole name s =
     map_option (\<lambda>(inner, rest). (consumed s rest, None)) (element_at name s)"

text \<open>
  A \<^verbatim>\<open>type="module"\<close> attribute (either kind of quote on either side) at the start
  of a text, and somewhere in a tag before its first \<^verbatim>\<open>>\<close>.
\<close>

definition module_attr :: "string \<Rightarrow> bool" where
  \<open>module_attr s =
     (word_at [IGNORECASE] ''type='' s \<and>
      (case drop 5 s of
         [] \<Rightarrow> False
       | q # u \<Rightarrow> q \<in> set quotes \<and> word_at [IGNORECASE] ''module'' u \<and>
                  (case drop 6 u of [] \<Rightarrow> False | q' # _ \<Rightarrow> q' \<in> set quotes)))\<close>

fun module_in_tag :: "string \<Rightarrow> bool" where
  "module_in_tag [] = False"
| "module_in_tag (d # u) = (module_attr (d # u) \<or> (d \<noteq> CHR ''>'' \<and> module_in_tag u))"

definition module_element :: matcher where
  \<open>module_element s =
     (if module_in_tag (drop 7 s) then element_whole ''script'' s else None)\<close>

text \<open>
  An opening or closing tag \<^verbatim>\<open><name ...>\<close>, \<^verbatim>\<open></name ...>\<close> at the start of a text:
  it reaches to the first \<^verbatim>\<open>>\<close>.
\<close>

definition tag_at :: "string \<Rightarrow> matcher" where
  \<open>tag_at name s =
     (if word_at [IGNORECASE] (''</'' @ name) s \<or> word_at [IGNORECASE] (''<'' @ name) s then
        map_option (\<lambda>rest. (consumed s rest, None)) (after_char (CHR ''>'') s)
      else None)\<close>


text \<open>The extractor and the sidebar rewrite, said with these.\<close>

definition first_element :: "string \<Rightarrow> string \<Rightarrow> string option" where
  "first_element name text = map_option (group_text \<circ> snd) (search_by (element_inner name) text)"

definition elements :: "string \<Rightarrow> string \<Rightarrow> string list" where
  "elements name text = map (group_text \<circ> snd) (findall_by (element_inner name) text)"

definition remove_tags :: "string \<Rightarrow> string \<Rightarrow> string" where
  "remove_tags name text = sub_by (tag_at name) (\<lambda>g. []) text"

definition spec_title :: "string \<Rightarrow> string" where
  \<open>spec_title text =
     (case first_element ''title'' text of
        Some inner \<Rightarrow> strip inner
      | None \<Rightarrow> ''Documentation'')\<close>

definition spec_body :: "string \<Rightarrow> string" where
  \<open>spec_body text =
     (case first_element ''body'' text of
        Some inner \<Rightarrow> strip inner
      | None \<Rightarrow>
          (case index_of ''</head>'' text of
             Some h \<Rightarrow> remove_tags ''body'' (remove_tags ''html'' (strip (drop (h + 7) text)))
           | None \<Rightarrow> text))\<close>

definition spec_styles :: "string \<Rightarrow> string" where
  \<open>spec_styles text = join ''\<newline>'' (map strip (filter useful (elements ''style'' text)))\<close>

definition spec_scripts :: "string \<Rightarrow> string" where
  \<open>spec_scripts text =
     (let general = map fst (findall_by (element_whole ''script'') text);
          modules = map fst (findall_by module_element text)
      in if modules \<noteq> [] then join ''\<newline>'' modules @ ''\<newline>'' @ join ''\<newline>'' general
         else join ''\<newline>'' general)\<close>


text \<open>Two notions for the proofs: the first entry of a list, and the tails of a text.\<close>

definition first :: "'a list \<Rightarrow> 'a option" where
  "first xs = (case xs of [] \<Rightarrow> None | x # _ \<Rightarrow> Some x)"

fun tails :: "'a list \<Rightarrow> 'a list list" where
  "tails [] = [[]]"
| "tails (x # xs) = (x # xs) # tails xs"


section \<open>Facts about the matcher\<close>

subsection \<open>Characters without case\<close>

lemma lower_chr_caseless:
  assumes "c \<notin> set upper_chars"
  shows "lower_chr c = c"
proof -
  have "map_of (zip upper_chars lower_chars) c = None"
  proof -
    have "c \<notin> fst ` set (zip upper_chars lower_chars)"
      using assms by (auto dest: set_zip_leftD)
    then show ?thesis by (simp add: map_of_eq_None_iff)
  qed
  then show ?thesis by (simp add: lower_chr_def)
qed

lemma lower_chr_cases: "lower_chr d = d \<or> lower_chr d \<in> set lower_chars"
  by (auto simp: lower_chr_def split: option.splits dest!: map_of_SomeD set_zip_rightD)

lemma chr_eq_caseless:
  assumes "c \<notin> set upper_chars" "c \<notin> set lower_chars"
  shows "chr_eq fl c d \<longleftrightarrow> c = d"
proof (cases "IGNORECASE \<in> set fl")
  case False then show ?thesis by (simp add: chr_eq_def)
next
  case True
  have c: "lower_chr c = c" using assms(1) by (rule lower_chr_caseless)
  show ?thesis
  proof
    assume "chr_eq fl c d"
    then have e: "lower_chr d = c" using True c by (simp add: chr_eq_def)
    show "c = d"
    proof (rule ccontr)
      assume "c \<noteq> d"
      with e lower_chr_cases[of d] have "c \<in> set lower_chars" by auto
      with assms(2) show False by simp
    qed
  next
    assume "c = d" then show "chr_eq fl c d" by (simp add: chr_eq_def)
  qed
qed

lemma chr_eq_gt [simp]: "chr_eq fl (CHR ''>'') d \<longleftrightarrow> d = CHR ''>''"
  using chr_eq_caseless[of "CHR ''>''" fl d] by (auto simp: upper_chars_def lower_chars_def)
lemma chr_eq_lt [simp]: "chr_eq fl (CHR ''<'') d \<longleftrightarrow> d = CHR ''<''"
  using chr_eq_caseless[of "CHR ''<''" fl d] by (auto simp: upper_chars_def lower_chars_def)
lemma chr_eq_slash [simp]: "chr_eq fl (CHR ''/'') d \<longleftrightarrow> d = CHR ''/''"
  using chr_eq_caseless[of "CHR ''/''" fl d] by (auto simp: upper_chars_def lower_chars_def)
lemma chr_eq_dquote [simp]: "chr_eq fl (CHR 0x22) d \<longleftrightarrow> d = CHR 0x22"
  using chr_eq_caseless[of "CHR 0x22" fl d] by (auto simp: upper_chars_def lower_chars_def)
lemma chr_eq_squote [simp]: "chr_eq fl (CHR 0x27) d \<longleftrightarrow> d = CHR 0x27"
  using chr_eq_caseless[of "CHR 0x27" fl d] by (auto simp: upper_chars_def lower_chars_def)

lemma in_cls_gt [simp]: "in_cls fl ''>'' d \<longleftrightarrow> d = CHR ''>''"
  by (simp add: in_cls_def)
lemma in_cls_dquote [simp]: "in_cls fl [CHR 0x22] d \<longleftrightarrow> d = CHR 0x22"
  by (simp add: in_cls_def)
lemma in_cls_quotes [simp]: "in_cls fl quotes d \<longleftrightarrow> d \<in> set quotes"
  by (auto simp add: in_cls_def quotes_def)

lemma rmatch_lits:
  "rmatch fl (lits p) st =
     (if word_at fl p (fst st) then [(drop (length p) (fst st), snd st)] else [])"
proof (induction p arbitrary: st)
  case Nil
  then show ?case by simp
next
  case (Cons c p)
  show ?case
  proof (cases "fst st")
    case Nil then show ?thesis by simp
  next
    case (Cons d t)
    then show ?thesis using Cons.IH[of "(t, snd st)"] by simp
  qed
qed

lemma star_ncls_unfold:
  "rmatch fl (Star (NCls cs)) (s, g) =
     (case s of [] \<Rightarrow> [] | d # t \<Rightarrow> if in_cls fl cs d then [] else rmatch fl (Star (NCls cs)) (t, g))
     @ [(s, g)]"
  by (cases s) simp_all

lemma star_ncls_then:
  assumes "\<And>d t g. \<not> in_cls fl cs d \<Longrightarrow> F (d # t, g) = []"
  shows "concat (map F (rmatch fl (Star (NCls cs)) (s, g)))
         = F (dropWhile (\<lambda>d. \<not> in_cls fl cs d) s, g)"
proof (induction s)
  case Nil
  then show ?case by simp
next
  case (Cons d t)
  show ?case
  proof (cases "in_cls fl cs d")
    case True
    then show ?thesis by (simp add: star_ncls_unfold[of fl cs "d # t"])
  next
    case False
    then show ?thesis using Cons.IH assms[OF False, of t g]
      by (simp add: star_ncls_unfold[of fl cs "d # t"])
  qed
qed

lemma lazy_dot_unfold:
  assumes "DOTALL \<in> set fl"
  shows "rmatch fl (LazyStar Dot) (s, g) = map (\<lambda>u. (u, g)) (tails s)"
  using assms by (induction s) simp_all

subsection \<open>Words, tags and lazy runs\<close>

lemma first_simps [simp]: "first [] = None" "first (x # xs) = Some x"
  by (simp_all add: first_def)

lemma first_append: "first (xs @ ys) = (case first xs of Some x \<Rightarrow> Some x | None \<Rightarrow> first ys)"
  by (cases xs) simp_all

lemma first_None_iff: "first xs = None \<longleftrightarrow> xs = []"
  by (cases xs) simp_all

lemma match_at_first:
  "match_at fl r s = map_option (\<lambda>(s', g). (consumed s s', g)) (first (rmatch fl r (s, None)))"
  by (simp add: match_at_def consumed_def first_def split: list.splits)

lemma chr_eq_ic: "IGNORECASE \<in> set fl \<Longrightarrow> chr_eq fl c d = chr_eq [IGNORECASE] c d"
  by (simp add: chr_eq_def)

lemma word_at_ic: "IGNORECASE \<in> set fl \<Longrightarrow> word_at fl w s = word_at [IGNORECASE] w s"
  by (induction fl w s rule: word_at.induct) (simp_all add: chr_eq_def)

lemma cut_word_ic:
  assumes "IGNORECASE \<in> set fl"
  shows "cut_word fl w s = cut_word [IGNORECASE] w s"
  by (induction s) (simp_all add: word_at_ic[OF assms])

lemma word_at_Nil [simp]: "word_at fl w [] \<longleftrightarrow> w = []"
  by (cases w) simp_all

lemma concat_map_Eps [simp]: "concat (map (rmatch fl Eps) xs) = xs"
  by (induction xs) simp_all

lemma rmatch_word_end [simp]: "rmatch fl (Seq (lits w) Eps) st = rmatch fl (lits w) st"
  by simp

lemma group_lazy_word_aux:
  "first (concat (map (\<lambda>u. if word_at fl w u
                            then [(drop (length w) u,
                                   Some (take (length acc + length s - length u) (acc @ s)))]
                            else []) (tails s)))
   = map_option (\<lambda>(a, b). (b, Some (acc @ a))) (cut_word fl w s)"
proof (induction s arbitrary: acc)
  case Nil
  then show ?case by simp
next
  case (Cons c cs)
  show ?case
  proof (cases "word_at fl w (c # cs)")
    case True
    then show ?thesis by simp
  next
    case False
    have "first (concat (map (\<lambda>u. if word_at fl w u
                            then [(drop (length w) u,
                                   Some (take (length (acc @ [c]) + length cs - length u) ((acc @ [c]) @ cs)))]
                            else []) (tails cs)))
      = map_option (\<lambda>(a, b). (b, Some ((acc @ [c]) @ a))) (cut_word fl w cs)"
      by (rule Cons.IH)
    then show ?thesis using False
      by (simp add: option.map_comp comp_def case_prod_unfold cong: if_cong)
  qed
qed

lemma group_lazy_word:
  assumes "DOTALL \<in> set fl"
  shows "first (rmatch fl (Seq (Group (LazyStar Dot)) (Seq (lits w) Eps)) (s, g))
         = map_option (\<lambda>(a, b). (b, Some a)) (cut_word fl w s)"
  using group_lazy_word_aux[of fl w "[]" s]
  by (simp add: lazy_dot_unfold[OF assms] rmatch_lits comp_def cong: if_cong del: rmatch.simps(9))

lemma lazy_word_list:
  assumes "DOTALL \<in> set fl"
  shows "rmatch fl (Seq (LazyStar Dot) (Seq (lits w) Eps)) (s, g)
         = concat (map (\<lambda>u. if word_at fl w u then [(drop (length w) u, g)] else []) (tails s))"
  by (simp add: lazy_dot_unfold[OF assms] rmatch_lits comp_def cong: if_cong del: rmatch.simps(9))

lemma lazy_word_aux:
  "first (concat (map (\<lambda>u. if word_at fl w u then [(drop (length w) u, g)] else []) (tails s)))
   = map_option (\<lambda>(a, b). (b, g)) (cut_word fl w s)"
  by (induction s) (simp_all add: option.map_comp comp_def case_prod_unfold)

lemma lazy_word:
  assumes "DOTALL \<in> set fl"
  shows "first (rmatch fl (Seq (LazyStar Dot) (Seq (lits w) Eps)) (s, g))
         = map_option (\<lambda>(a, b). (b, g)) (cut_word fl w s)"
  by (simp only: lazy_word_list[OF assms] lazy_word_aux)

lemma cut_word_suffix_None: "cut_word fl w (p @ b) = None \<Longrightarrow> cut_word fl w b = None"
proof (induction p)
  case Nil then show ?case by simp
next
  case (Cons c p)
  then show ?case by (simp split: if_splits)
qed


lemma after_gt_cases:
  "(case dropWhile (\<lambda>d. d \<noteq> c) s of [] \<Rightarrow> X | d # r \<Rightarrow> if d = c then Y r else Z)
   = (case after_char c s of None \<Rightarrow> X | Some r \<Rightarrow> Y r)"
proof (cases "dropWhile (\<lambda>d. d \<noteq> c) s")
  case Nil then show ?thesis unfolding after_char_def Nil by simp
next
  case (Cons d r)
  then have "d = c" using hd_dropWhile[of "\<lambda>d. d \<noteq> c" s] by auto
  then show ?thesis unfolding after_char_def Cons by simp
qed

lemma rmatch_Lit_then:
  "rmatch fl (Seq (Lit c) R) (u, g)
   = (case u of [] \<Rightarrow> [] | d # r \<Rightarrow> if chr_eq fl c d then rmatch fl R (r, g) else [])"
  by (cases u) simp_all

lemma rmatch_word_then:
  "rmatch fl (Seq (lits p) R) (s, g)
   = (if word_at fl p s then rmatch fl R (drop (length p) s, g) else [])"
  by (simp add: rmatch_lits)

lemma not_in_cls_gt: "(\<lambda>d. \<not> in_cls fl ''>'' d) = (\<lambda>d. d \<noteq> CHR ''>'')"
  by simp

lemma rmatch_tag_end:
  "rmatch fl (Seq (Star (NCls ''>'')) (Seq (Lit (CHR ''>'')) R)) (s, g)
   = (case after_char (CHR ''>'') s of None \<Rightarrow> [] | Some r \<Rightarrow> rmatch fl R (r, g))"
proof -
  have "concat (map (rmatch fl (Seq (Lit (CHR ''>'')) R)) (rmatch fl (Star (NCls ''>'')) (s, g)))
        = rmatch fl (Seq (Lit (CHR ''>'')) R) (dropWhile (\<lambda>d. \<not> in_cls fl ''>'' d) s, g)"
    by (rule star_ncls_then) (simp add: rmatch_Lit_then)
  also have "\<dots> = (case dropWhile (\<lambda>d. d \<noteq> CHR ''>'') s of [] \<Rightarrow> []
                    | d # r \<Rightarrow> if d = CHR ''>'' then rmatch fl R (r, g) else [])"
    by (simp only: rmatch_Lit_then not_in_cls_gt chr_eq_gt)
  also have "\<dots> = (case after_char (CHR ''>'') s of None \<Rightarrow> [] | Some r \<Rightarrow> rmatch fl R (r, g))"
    by (rule after_gt_cases)
  finally show ?thesis by (simp only: rmatch.simps(6))
qed

lemma seqs_simps:
  "seqs [] = Eps" "seqs (r # rs) = Seq r (seqs rs)"
  by (simp_all add: seqs_def)

lemma rmatch_element:
  assumes "DOTALL \<in> set fl"
  shows "first (rmatch fl (seqs [lits p, Star (NCls ''>''), Lit (CHR ''>''),
                                 Group (LazyStar Dot), lits w]) (s, g))
         = (if word_at fl p s then
              (case after_char (CHR ''>'') (drop (length p) s) of
                 None \<Rightarrow> None
               | Some t \<Rightarrow> map_option (\<lambda>(a, b). (b, Some a)) (cut_word fl w t))
            else None)"
proof (cases "word_at fl p s")
  case False
  then show ?thesis by (simp only: seqs_simps rmatch_word_then if_False first_simps)
next
  case True
  show ?thesis
  proof (cases "after_char (CHR ''>'') (drop (length p) s)")
    case None
    then show ?thesis using True
      by (simp only: seqs_simps rmatch_word_then rmatch_tag_end if_True option.case first_simps)
  next
    case (Some t)
    then show ?thesis using True
      by (simp only: seqs_simps rmatch_word_then rmatch_tag_end if_True option.case
            group_lazy_word[OF assms])
  qed
qed

lemma match_at_element:
  assumes "DOTALL \<in> set fl" "IGNORECASE \<in> set fl"
  shows "match_at fl (seqs [lits (''<'' @ name), Star (NCls ''>''), Lit (CHR ''>''),
                            Group (LazyStar Dot), lits (''</'' @ name @ ''>'')])
         = element_inner name"
proof
  fix s
  have len: "length (''<'' @ name) = Suc (length name)" by simp
  show "match_at fl (seqs [lits (''<'' @ name), Star (NCls ''>''), Lit (CHR ''>''),
                            Group (LazyStar Dot), lits (''</'' @ name @ ''>'')]) s
         = element_inner name s"
    unfolding match_at_first rmatch_element[OF assms(1)] element_inner_def element_at_def
      word_at_ic[OF assms(2)] cut_word_ic[OF assms(2)] len
    by (auto simp add: option.map_comp comp_def case_prod_unfold split: option.splits)
qed

subsection \<open>Tags and anchors\<close>

lemma chr_eq_sym: "chr_eq fl c d = chr_eq fl d c"
  by (auto simp: chr_eq_def)

lemma after_char_Cons: "after_char c (d # s) = (if d = c then Some s else after_char c s)"
  by (simp add: after_char_def)

lemma after_char_Nil [simp]: "after_char c [] = None"
  by (simp add: after_char_def)

lemma after_gt_skip_word:
  "word_at fl p s \<Longrightarrow> CHR ''>'' \<notin> set p \<Longrightarrow>
   after_char (CHR ''>'') (drop (length p) s) = after_char (CHR ''>'') s"
proof (induction fl p s rule: word_at.induct)
  case (1 fl s)
  then show ?case by simp
next
  case (2 fl c cs)
  then show ?case by simp
next
  case (3 fl c cs d ds)
  have "d \<noteq> CHR ''>''"
  proof
    assume "d = CHR ''>''"
    with 3(2) have "chr_eq fl (CHR ''>'') c" using chr_eq_sym[of fl c "CHR ''>''"] by simp
    then show False using 3(3) by simp
  qed
  then show ?case using 3 by (simp add: after_char_Cons)
qed

lemma rmatch_Opt_then:
  "rmatch fl (Seq (Opt (Lit c)) R) (s, g)
   = (case s of [] \<Rightarrow> [] | d # u \<Rightarrow> if chr_eq fl c d then rmatch fl R (u, g) else [])
     @ rmatch fl R (s, g)"
  by (cases s) simp_all

lemma rmatch_tag_tail:
  "rmatch fl (seqs [lits name, Star (NCls ''>''), Lit (CHR ''>'')]) (s, g)
   = (if word_at fl name s then
        (case after_char (CHR ''>'') (drop (length name) s) of None \<Rightarrow> [] | Some r \<Rightarrow> [(r, g)])
      else [])"
  by (simp only: seqs_simps rmatch_word_then rmatch_tag_end rmatch.simps(5))

lemma rmatch_tag:
  assumes "CHR ''>'' \<notin> set name" "name = c # cs" "c \<noteq> CHR ''/''"
  shows "first (rmatch fl (seqs [Lit (CHR ''<''), Opt (Lit (CHR ''/'')), lits name,
                                 Star (NCls ''>''), Lit (CHR ''>'')]) (s, g))
         = (if word_at fl (''</'' @ name) s \<or> word_at fl (''<'' @ name) s
            then map_option (\<lambda>r. (r, g)) (after_char (CHR ''>'') s) else None)"
proof -
  have tail: "seqs [Lit (CHR ''<''), Opt (Lit (CHR ''/'')), lits name, Star (NCls ''>''), Lit (CHR ''>'')]
        = Seq (Lit (CHR ''<'')) (Seq (Opt (Lit (CHR ''/''))) (seqs [lits name, Star (NCls ''>''), Lit (CHR ''>'')]))"
    by (simp add: seqs_simps)
  have "\<not> chr_eq fl c (CHR ''/'')"
    using assms(3) chr_eq_sym[of fl c "CHR ''/''"] by simp
  then have noslash: "\<not> word_at fl name (CHR ''/'' # u)" for u
    using assms(2) by simp
  have skip: "word_at fl name u \<Longrightarrow>
      after_char (CHR ''>'') (drop (length name) u) = after_char (CHR ''>'') u" for u
    using assms(1) by (simp add: after_gt_skip_word)
  show ?thesis
  proof (cases s)
    case Nil
    then show ?thesis unfolding tail by (simp add: rmatch_Lit_then del: rmatch.simps)
  next
    case (Cons d t)
    show ?thesis
    proof (cases "d = CHR ''<''")
      case False
      then show ?thesis unfolding tail Cons by (simp add: rmatch_Lit_then del: rmatch.simps)
    next
      case True
      show ?thesis
      proof (cases t)
        case Nil
        have "name \<noteq> []" using assms(2) by simp
        with Nil show ?thesis unfolding tail Cons using True
          by (simp add: rmatch_Lit_then rmatch_Opt_then rmatch_tag_tail del: rmatch.simps)
      next
        case (Cons e u)
        show ?thesis
        proof (cases "e = CHR ''/''")
          case True
          then show ?thesis unfolding tail \<open>s = d # t\<close> Cons using \<open>d = CHR ''<''\<close> noslash[of u] skip[of u]
            by (auto simp add: rmatch_Lit_then rmatch_Opt_then rmatch_tag_tail after_char_Cons
                  split: option.splits simp del: rmatch.simps)
        next
          case False
          then show ?thesis unfolding tail \<open>s = d # t\<close> Cons using \<open>d = CHR ''<''\<close> skip[of "e # u"]
            by (auto simp add: rmatch_Lit_then rmatch_Opt_then rmatch_tag_tail after_char_Cons
                  split: option.splits simp del: rmatch.simps)
        qed
      qed
    qed
  qed
qed

lemma match_at_tag:
  assumes "IGNORECASE \<in> set fl" "CHR ''>'' \<notin> set name" "name = c # cs" "c \<noteq> CHR ''/''"
  shows "match_at fl (seqs [Lit (CHR ''<''), Opt (Lit (CHR ''/'')), lits name,
                            Star (NCls ''>''), Lit (CHR ''>'')]) = tag_at name"
proof
  fix s
  show "match_at fl (seqs [Lit (CHR ''<''), Opt (Lit (CHR ''/'')), lits name,
                            Star (NCls ''>''), Lit (CHR ''>'')]) s = tag_at name s"
    unfolding match_at_first rmatch_tag[OF assms(2,3,4)] tag_at_def word_at_ic[OF assms(1)]
    by (simp add: option.map_comp comp_def)
qed


lemma starts_with_split: "starts_with p s \<Longrightarrow> s = p @ drop (length p) s"
  by (induction p s rule: starts_with.induct) simp_all

lemma starts_with_append [simp]: "starts_with p (p @ r)"
  by (induction p) simp_all





declare rmatch.simps [simp del] lits.simps [simp del]




subsection \<open>Title and body\<close>

lemma str_find_index: "str_find s sub = (case index_of sub s of None \<Rightarrow> - 1 | Some j \<Rightarrow> int j)"
  by (simp add: str_find_def find_from_def py_index_def split: option.splits)

lemma str_find_None: "str_find s sub = - 1 \<longleftrightarrow> index_of sub s = None"
  by (simp add: str_find_index split: option.splits)

lemma slice_from_nat: "slice_from s (int k) = drop k s"
  by (simp add: slice_from_def py_index_def min_def)

lemma expand_Nil: "expand [] = (\<lambda>g. [])"
  by (simp add: expand_def fun_eq_iff)

lemma search_by_Some: "search_by m s = Some r \<Longrightarrow> \<exists>u. m u = Some r"
  by (induction s) (auto split: option.splits)

lemma element_inner_group: "element_inner name u = Some (w, g) \<Longrightarrow> \<exists>inner. g = Some inner"
  by (auto simp: element_inner_def)

lemma title_re_match: "match_at [IGNORECASE, DOTALL] title_re = element_inner ''title''"
  using match_at_element[of "[IGNORECASE, DOTALL]" "''title''"] by (simp add: title_re_def)

lemma body_re_match: "match_at [DOTALL, IGNORECASE] body_re = element_inner ''body''"
  using match_at_element[of "[DOTALL, IGNORECASE]" "''body''"] by (simp add: body_re_def)

lemma style_pattern_match: "match_at [DOTALL, IGNORECASE] style_pattern = element_inner ''style''"
  using match_at_element[of "[DOTALL, IGNORECASE]" "''style''"] by (simp add: style_pattern_def)

lemma html_tag_re_match: "match_at [IGNORECASE] html_tag_re = tag_at ''html''"
  using match_at_tag[of "[IGNORECASE]" "''html''"] by (simp add: html_tag_re_def)

lemma body_tag_re_match: "match_at [IGNORECASE] body_tag_re = tag_at ''body''"
  using match_at_tag[of "[IGNORECASE]" "''body''"] by (simp add: body_tag_re_def)

lemma extract_title_eq: "extract_title text = Some (spec_title text)"
proof (cases "search_by (element_inner ''title'') text")
  case None
  then show ?thesis
    by (simp add: extract_title_def re_search_def title_re_match spec_title_def first_element_def)
next
  case (Some r)
  obtain w g where r: "r = (w, g)" by (cases r)
  from search_by_Some[OF Some] r obtain inner where "g = Some inner"
    using element_inner_group by blast
  then show ?thesis using Some r
    by (simp add: extract_title_def re_search_def title_re_match spec_title_def first_element_def
          group_text_def)
qed

lemma extract_body_eq: "extract_body text = Some (spec_body text)"
proof (cases "search_by (element_inner ''body'') text")
  case None
  show ?thesis
  proof (cases "index_of ''</head>'' text")
    case n: None
    then show ?thesis using None
      by (simp add: extract_body_def re_search_def body_re_match spec_body_def first_element_def
            str_find_index)
  next
    case (Some h)
    have "slice_from text (int h + 7) = drop (h + 7) text"
      using slice_from_nat[of "text" "h + 7"] by simp
    then show ?thesis using None Some
      by (simp add: extract_body_def re_search_def body_re_match spec_body_def first_element_def
            str_find_index re_sub_def html_tag_re_match body_tag_re_match remove_tags_def
            expand_Nil)
  qed
next
  case (Some r)
  obtain w g where r: "r = (w, g)" by (cases r)
  from search_by_Some[OF Some] r obtain inner where "g = Some inner"
    using element_inner_group by blast
  then show ?thesis using Some r
    by (simp add: extract_body_def re_search_def body_re_match spec_body_def first_element_def
          group_text_def)
qed

lemma extract_text_eq:
  "extract_text text = Some \<lparr>title = spec_title text, content = spec_body text,
                              styles = extract_styles text, scripts = extract_scripts text\<rparr>"
  by (simp add: extract_text_def extract_title_eq extract_body_eq)

section \<open>The claims about the content extractor\<close>

text \<open>
  C4. For every text the extractor returns a result, and its title is the inner text,
  trimmed, of the first \<^verbatim>\<open><title ...>...</title>\<close> element found when the text is scanned
  from the left with letter case ignored, and \<^verbatim>\<open>Documentation\<close> when there is none.
\<close>

theorem title_extraction:
  "\<exists>r. extract_text text = Some r \<and> title r = spec_title text"
  by (simp add: extract_text_eq)

theorem title_extraction_witness:
  \<open>(\<exists>r. extract_text ''a<TITLE id=x> Guide </Title><title>b</title>'' = Some r \<and> title r = ''Guide'') \<and>
   (\<exists>r. extract_text ''<p>no heading</p>'' = Some r \<and> title r = ''Documentation'')\<close>
proof -
  have 1: \<open>spec_title ''a<TITLE id=x> Guide </Title><title>b</title>'' = ''Guide''\<close>
    by code_simp
  have 2: \<open>spec_title ''<p>no heading</p>'' = ''Documentation''\<close>
    by code_simp
  show ?thesis
    using title_extraction[of \<open>''a<TITLE id=x> Guide </Title><title>b</title>''\<close>]
          title_extraction[of \<open>''<p>no heading</p>''\<close>]
    unfolding 1 2 by blast
qed

text \<open>
  C5. The body of the result is the inner text, trimmed, of the first
  \<^verbatim>\<open><body ...>...</body>\<close> element of the scan; when there is none and the text has a
  \<^verbatim>\<open></head>\<close>, it is what follows the first \<^verbatim>\<open></head>\<close>, trimmed and then freed
  first of its \<^verbatim>\<open>html\<close> tags and then of its \<^verbatim>\<open>body\<close> tags, opening and closing,
  letter case ignored.
\<close>

theorem body_extraction:
  "\<exists>r. extract_text text = Some r \<and> content r = spec_body text"
  by (simp add: extract_text_eq)

theorem body_extraction_witness:
  \<open>(\<exists>r. extract_text ''<Body id=b> Hello </BODY> </body>'' = Some r \<and> content r = ''Hello'') \<and>
   (\<exists>r. extract_text ''<head></head> <HTML lang=en><body>a</Html> '' = Some r \<and> content r = ''a'')\<close>
proof -
  have 1: \<open>spec_body ''<Body id=b> Hello </BODY> </body>'' = ''Hello''\<close>
    by code_simp
  have 2: \<open>spec_body ''<head></head> <HTML lang=en><body>a</Html> '' = ''a''\<close>
    by code_simp
  show ?thesis
    using body_extraction[of \<open>''<Body id=b> Hello </BODY> </body>''\<close>]
          body_extraction[of \<open>''<head></head> <HTML lang=en><body>a</Html> ''\<close>]
    unfolding 1 2 by blast
qed

text \<open>
  C10. A text with no \<^verbatim>\<open><body ...>...</body>\<close> element and no \<^verbatim>\<open></head>\<close> is its own
  body: nothing is trimmed and no tag is removed.
\<close>

theorem body_without_body_and_head:
  assumes "first_element ''body'' text = None" and "index_of ''</head>'' text = None"
  shows "\<exists>r. extract_text text = Some r \<and> content r = text"
  using assms by (simp add: extract_text_eq spec_body_def)

theorem body_without_body_and_head_witness:
  \<open>first_element ''body'' '' <html><p>x</p> '' = None \<and>
   index_of ''</head>'' '' <html><p>x</p> '' = None \<and>
   (\<exists>r. extract_text '' <html><p>x</p> '' = Some r \<and> content r = '' <html><p>x</p> '')\<close>
proof -
  have 1: \<open>first_element ''body'' '' <html><p>x</p> '' = None\<close>
    by code_simp
  have 2: \<open>index_of ''</head>'' '' <html><p>x</p> '' = None\<close>
    by code_simp
  show ?thesis
    using body_without_body_and_head[OF 1 2] 1 2 by blast
qed

section \<open>The claims about the template extractor\<close>

lemma index_of_le: "index_of sub s = Some j \<Longrightarrow> j \<le> length s"
  by (induction s arbitrary: j) (auto split: if_splits)

lemma find_from_ge: "- 1 \<le> find_from s sub start"
  by (simp add: find_from_def Let_def split: option.splits)

text \<open>
  The extractor gives no template exactly when one of the four words it looks for with
  \<^verbatim>\<open>find\<close> from the start of the index is missing. The closing \<^verbatim>\<open></nav>\<close> is not
  among them: 6 is added to the position before it is compared with \<open>-1\<close>.
\<close>

lemma template_of_None_iff:
  \<open>template_of text = None \<longleftrightarrow>
     index_of ''<article id="content">'' text = None \<or>
     index_of ''<nav id="sidebar">'' text = None \<or>
     index_of ''<footer id="footer">'' text = None \<or>
     index_of ''</html>'' text = None\<close>
proof -
  have "find_from text ''</nav>'' start + 6 \<noteq> - 1" for start
    using find_from_ge[of "text" "''</nav>''" start] by simp
  then show ?thesis
    by (auto simp add: template_of_def Let_def str_find_None)
qed

text \<open>
  C8. The index below has the article, the sidebar opening, the footer and the closing
  \<^verbatim>\<open></html>\<close>, and no \<^verbatim>\<open></nav>\<close> at all. The extractor does not give up: it returns
  a template whose sidebar is the empty text.
\<close>

theorem template_without_nav_end:
  \<open>index_of ''</nav>'' ''<article id="content"><nav id="sidebar"><footer id="footer"></html>'' = None \<and>
   generate_pdoc_template
     [(''index.html'',
       File ''<article id="content"><nav id="sidebar"><footer id="footer"></html>'' True)]
   = Inr (Some \<lparr>before_content = [], sidebar = [], footer = ''<footer id="footer">''\<rparr>)\<close>
  by code_simp

section \<open>The claims about the driver\<close>

lemma extract_html_content_None:
  "snd (extract_html_content d f) = None \<longleftrightarrow> (\<exists>e. read_text d f = Inl e)"
  by (cases "read_text d f") (simp_all add: extract_html_content_def extract_text_eq)

text \<open>
  C9. A file that cannot be read makes the extractor report the error and return no
  result, and that is the only way in which it returns none. The second loop of the
  driver then prints the failure marker for the file, leaves the directory as it is and
  goes on with the files that remain.
\<close>

theorem extraction_failure_skips:
  "(\<forall>e. read_text d f = Inl e \<longrightarrow> extract_html_content d f = ([ErrorReading f e], None)) \<and>
   (snd (extract_html_content d f) = None \<longleftrightarrow> (\<exists>e. read_text d f = Inl e)) \<and>
   (exists d f \<longrightarrow> snd (extract_html_content d f) = None \<longrightarrow>
      process_files t (f # rest) d
      = and_then (Integrating f # fst (extract_html_content d f) @ [Failure f])
          (process_files t rest d))"
proof (intro conjI allI impI)
  fix e assume "read_text d f = Inl e"
  then show "extract_html_content d f = ([ErrorReading f e], None)"
    by (simp add: extract_html_content_def)
next
  show "snd (extract_html_content d f) = None \<longleftrightarrow> (\<exists>e. read_text d f = Inl e)"
    by (rule extract_html_content_None)
next
  assume "exists d f" and "snd (extract_html_content d f) = None"
  then show "process_files t (f # rest) d
      = and_then (Integrating f # fst (extract_html_content d f) @ [Failure f])
          (process_files t rest d)"
    by (cases "extract_html_content d f") simp
qed

theorem extraction_failure_skips_witness:
  \<open>exists [(''a.html'', Unreadable ''Permission denied'')] ''a.html'' \<and>
   read_text [(''a.html'', Unreadable ''Permission denied'')] ''a.html''
     = Inl (OSError ''Permission denied'') \<and>
   process_files \<lparr>before_content = [], sidebar = [], footer = []\<rparr> [''a.html'', ''gone.html'']
     [(''a.html'', Unreadable ''Permission denied'')]
   = ([(''a.html'', Unreadable ''Permission denied'')],
      [Integrating ''a.html'', ErrorReading ''a.html'' (OSError ''Permission denied''),
       Failure ''a.html'', NotFound ''gone.html''],
      Returned)\<close>
  using extraction_failure_skips[of \<open>[(''a.html'', Unreadable ''Permission denied'')]\<close> \<open>''a.html''\<close>
          \<open>\<lparr>before_content = [], sidebar = [], footer = []\<rparr>\<close> \<open>[''gone.html'']\<close>]
  by (simp add: exists_def read_text_def and_then_def)

lemma ngroups_lits [simp]: "ngroups (lits w) = 0"
  by (induction w) (simp_all add: lits.simps)

lemma starts_with_iff: "starts_with p s \<longleftrightarrow> (\<exists>r. s = p @ r)"
proof
  assume "starts_with p s"
  then show "\<exists>r. s = p @ r" using starts_with_split by blast
next
  assume "\<exists>r. s = p @ r"
  then show "starts_with p s" by auto
qed

lemma index_of_Some_split:
  "index_of sub s = Some j \<Longrightarrow> \<exists>post. s = take j s @ sub @ post"
proof (induction s arbitrary: j)
  case Nil
  then show ?case by (simp split: if_splits)
next
  case (Cons c cs)
  show ?case
  proof (cases "starts_with sub (c # cs)")
    case True
    then show ?thesis using Cons.prems by (auto simp: starts_with_iff)
  next
    case False
    with Cons.prems obtain k where k: "index_of sub cs = Some k" "j = Suc k" by auto
    from Cons.IH[OF k(1)] show ?thesis using k(2) by auto
  qed
qed

lemma index_of_append: "index_of sub (pre @ sub @ post) \<noteq> None"
proof (induction pre)
  case Nil
  have "starts_with sub (sub @ post)" by simp
  then show ?case by (cases "sub @ post") (simp_all del: starts_with_append)
next
  case (Cons c pre)
  then show ?case by auto
qed

lemma contains_iff: "contains s sub \<longleftrightarrow> (\<exists>pre post. s = pre @ sub @ post)"
proof
  assume "contains s sub"
  then obtain j where "index_of sub s = Some j" by (auto simp: contains_def)
  from index_of_Some_split[OF this] show "\<exists>pre post. s = pre @ sub @ post" by blast
next
  assume "\<exists>pre post. s = pre @ sub @ post"
  then show "contains s sub" using index_of_append by (auto simp: contains_def)
qed

lemma useful_iff:
  "useful style \<longleftrightarrow>
     (\<exists>keyword \<in> set style_keywords. \<exists>pre mid post. style = pre @ mid @ post \<and> lower mid = keyword)"
proof -
  have "contains (lower style) k \<longleftrightarrow> (\<exists>pre mid post. style = pre @ mid @ post \<and> lower mid = k)" for k
  proof
    assume "contains (lower style) k"
    then obtain a b where "map lower_chr style = a @ k @ b"
      unfolding contains_iff lower_def by blast
    then obtain us vs where 1: "style = us @ vs" "k @ b = map lower_chr vs"
      unfolding map_eq_append_conv by blast
    from 1(2) obtain ms ps where 2: "vs = ms @ ps" "k = map lower_chr ms"
      using map_eq_append_conv[of lower_chr vs k b] by metis
    show "\<exists>pre mid post. style = pre @ mid @ post \<and> lower mid = k"
      using 1(1) 2 unfolding lower_def by blast
  next
    assume "\<exists>pre mid post. style = pre @ mid @ post \<and> lower mid = k"
    then obtain pre mid post where "style = pre @ mid @ post" "lower mid = k" by blast
    then have "lower style = lower pre @ k @ lower post" by (auto simp: lower_def)
    then show "contains (lower style) k" unfolding contains_iff by blast
  qed
  then show ?thesis by (simp add: useful_def list_ex_iff)
qed

lemma style_findall:
  "re_findall style_pattern text [DOTALL, IGNORECASE] = elements ''style'' text"
proof -
  have "ngroups style_pattern = 1" by (simp add: style_pattern_def seqs_def)
  then show ?thesis
    by (simp add: re_findall_def style_pattern_match elements_def comp_def case_prod_unfold)
qed

lemma join_Nil_iff: "xs = [] \<Longrightarrow> join sep xs = []"
  by simp

lemma extract_styles_eq: "extract_styles text = spec_styles text"
  by (simp add: extract_styles_def style_findall spec_styles_def Let_def)

text \<open>
  C6. The styles of the result are the inner texts of the \<^verbatim>\<open><style ...>...</style>\<close>
  elements found one behind the other, of which those are kept that hold one of the
  seven keywords once put in small letters; the kept ones are trimmed and joined, in
  their order in the text, by line breaks. When none is kept the styles are empty.
\<close>

theorem styles_extraction:
  \<open>(\<exists>r. extract_text text = Some r \<and>
        styles r = join ''\<newline>'' (map strip (filter useful (elements ''style'' text))) \<and>
        (filter useful (elements ''style'' text) = [] \<longrightarrow> styles r = [])) \<and>
   (useful style \<longleftrightarrow>
      (\<exists>keyword \<in> set [''badge'', ''mermaid'', ''highlight'', ''code'', ''pre'', ''table'', ''img''].
         \<exists>pre mid post. style = pre @ mid @ post \<and> lower mid = keyword))\<close>
proof -
  have "useful style \<longleftrightarrow>
      (\<exists>keyword \<in> set [''badge'', ''mermaid'', ''highlight'', ''code'', ''pre'', ''table'', ''img''].
         \<exists>pre mid post. style = pre @ mid @ post \<and> lower mid = keyword)"
    using useful_iff[of style] by (simp only: style_keywords_def)
  then show ?thesis
    by (simp add: extract_text_eq extract_styles_eq spec_styles_def)
qed

theorem styles_extraction_witness:
  \<open>(\<exists>r. extract_text ''<style> td{TABLE} </style><STYLE>p{margin:0}</style><style x>.Badge{}</Style>''
           = Some r \<and> styles r = ''td{TABLE}\<newline>.Badge{}'') \<and>
   useful ''td{TABLE}'' \<and> \<not> useful ''p{margin:0}''\<close>
proof -
  let ?text = \<open>''<style> td{TABLE} </style><STYLE>p{margin:0}</style><style x>.Badge{}</Style>''\<close>
  have 1: \<open>join ''\<newline>'' (map strip (filter useful (elements ''style'' ?text)))
           = ''td{TABLE}\<newline>.Badge{}''\<close>
    by code_simp
  have 2: \<open>useful ''td{TABLE}''\<close> by code_simp
  have 3: \<open>\<not> useful ''p{margin:0}''\<close> by code_simp
  from styles_extraction[of ?text \<open>''td{TABLE}''\<close>, THEN conjunct1]
  obtain r where r: "extract_text ?text = Some r"
      "styles r = join ''\<newline>'' (map strip (filter useful (elements ''style'' ?text)))"
    by (elim exE conjE)
  from r(2) have "styles r = ''td{TABLE}\<newline>.Badge{}''" by (simp only: 1)
  with r(1) have "\<exists>r. extract_text ?text = Some r \<and> styles r = ''td{TABLE}\<newline>.Badge{}''"
    by (intro exI conjI)
  with 2 3 show ?thesis by (intro conjI)
qed

section \<open>The claims about the page composer\<close>












end
